theory Spec2Isabelle
  imports Main "HOL-Library.Word" "HOL-Library.Signed_Division"
begin

unbundle bit_operations_syntax

section \<open>Data model (display_items.h, display.c)\<close>

text \<open>
  C \<open>int\<close> values are modelled as \<open>int\<close>: signed overflow is undefined in C and no
  property below depends on it. \<open>uint32_t\<close> and \<open>Uint32\<close> are \<open>32 word\<close>, pointers
  are \<open>64 word\<close>. A memory-unsafe access or a division by zero is an error value.
\<close>

type_synonym addr = "64 word"

datatype error = OutOfBounds | DivByZero

datatype primitive = Invalid | Image | ScaledCroppedImage | Rect | Text

text \<open>
  The union \<open>data\<close> of \<open>struct BaseDisplayItem\<close> overlays three structs:
  \<open>ImageData {const char *pix}\<close>, \<open>ImageDataWithSize {int width; int height; const char *pix}\<close>
  and \<open>TextData {uint32_t fgcolor; const char *text}\<close>. Its storage is kept as the C
  compiler lays it out on an LP64 little-endian target (x86-64, AArch64: 4-byte \<open>int\<close>,
  8-byte pointers aligned to 8): bytes 0-3, bytes 4-7 and bytes 8-15. Each member is a
  view of these bytes, so that reading a member other than the one last stored gives what
  the C program reads.
\<close>

record item_data =
  bytes0 :: "32 word"
  bytes4 :: "32 word"
  bytes8 :: "64 word"

definition image_data_pix :: "item_data \<Rightarrow> addr" where
  "image_data_pix d = word_cat (bytes4 d) (bytes0 d)"

definition image_data_with_size_width :: "item_data \<Rightarrow> int" where
  "image_data_with_size_width d = sint (bytes0 d)"

definition image_data_with_size_height :: "item_data \<Rightarrow> int" where
  "image_data_with_size_height d = sint (bytes4 d)"

definition image_data_with_size_pix :: "item_data \<Rightarrow> addr" where
  "image_data_with_size_pix d = bytes8 d"

definition text_data_fgcolor :: "item_data \<Rightarrow> 32 word" where
  "text_data_fgcolor d = bytes0 d"

definition text_data_text :: "item_data \<Rightarrow> addr" where
  "text_data_text d = bytes8 d"

text \<open>The stores \<open>item->data.image_data.pix = p\<close> and so on, as init_item makes them.\<close>

definition store_image_data :: "addr \<Rightarrow> item_data \<Rightarrow> item_data" where
  "store_image_data p d = d\<lparr>bytes0 := ucast p, bytes4 := ucast (drop_bit 32 p)\<rparr>"

definition store_image_data_with_size :: "int \<Rightarrow> int \<Rightarrow> addr \<Rightarrow> item_data \<Rightarrow> item_data" where
  "store_image_data_with_size w h p d =
     d\<lparr>bytes0 := word_of_int w, bytes4 := word_of_int h, bytes8 := p\<rparr>"

definition store_text_data :: "32 word \<Rightarrow> addr \<Rightarrow> item_data \<Rightarrow> item_data" where
  "store_text_data fg t d = d\<lparr>bytes0 := fg, bytes8 := t\<rparr>"

record base_display_item =
  primitive :: primitive
  item_x :: int
  item_y :: int
  item_width :: int
  item_height :: int
  brcolor :: "32 word"
  data :: item_data
  source_x :: int
  source_y :: int
  x_scale :: int
  y_scale :: int

record rectangle =
  rect_x :: int
  rect_y :: int
  rect_width :: int
  rect_height :: int
  rect_valid :: bool

text \<open>
  \<open>cstring\<close> gives, for the address of a NUL-terminated C string, its bytes before the
  NUL. \<open>strcmp\<close> is the C library's: only whether it returns 0 is used.
\<close>

type_synonym cstrings = "addr \<Rightarrow> 8 word list"

fun strcmp :: "8 word list \<Rightarrow> 8 word list \<Rightarrow> int" where
  "strcmp [] [] = 0"
| "strcmp [] (b # bs) = - 1"
| "strcmp (a # as) [] = 1"
| "strcmp (a # as) (b # bs) = (if a = b then strcmp as bs else if a < b then - 1 else 1)"

section \<open>Items as init_item builds them\<close>

text \<open>
  The four branches of init_item, from the decoded elements of the request tuple on.
  \<open>item\<close> is the content of the memory that \<open>malloc\<close> returned: init_item leaves the
  fields it does not assign as they were. A background colour is None for the atom
  \<open>transparent\<close>.
\<close>

definition bgcolor_of :: "int option \<Rightarrow> 32 word" where
  "bgcolor_of bgcolor = (case bgcolor of None \<Rightarrow> 0 | Some c \<Rightarrow> push_bit 8 (word_of_int c) OR 0xFF)"

definition init_item_image :: "base_display_item \<Rightarrow> int \<Rightarrow> int \<Rightarrow> int option \<Rightarrow> int \<Rightarrow> int \<Rightarrow> addr \<Rightarrow>
    base_display_item" where
  "init_item_image item x y bgcolor w h pix =
     item\<lparr>primitive := Image, item_x := x, item_y := y, brcolor := bgcolor_of bgcolor,
          item_width := w, item_height := h, data := store_image_data pix (data item)\<rparr>"

definition init_item_scaled_cropped_image :: "base_display_item \<Rightarrow> int \<Rightarrow> int \<Rightarrow> int \<Rightarrow> int \<Rightarrow>
    int option \<Rightarrow> int \<Rightarrow> int \<Rightarrow> int \<Rightarrow> int \<Rightarrow> int \<Rightarrow> int \<Rightarrow> addr \<Rightarrow> base_display_item" where
  "init_item_scaled_cropped_image item x y w h bgcolor sx sy xs ys img_w img_h pix =
     item\<lparr>primitive := ScaledCroppedImage, item_x := x, item_y := y, item_width := w,
          item_height := h, brcolor := bgcolor_of bgcolor,
          source_x := sx, source_y := sy, x_scale := xs, y_scale := ys,
          data := store_image_data_with_size img_w img_h pix (data item)\<rparr>"

definition init_item_rect :: "base_display_item \<Rightarrow> int \<Rightarrow> int \<Rightarrow> int \<Rightarrow> int \<Rightarrow> int \<Rightarrow> base_display_item" where
  "init_item_rect item x y w h color =
     item\<lparr>primitive := Rect, item_x := x, item_y := y, item_width := w, item_height := h,
          brcolor := push_bit 8 (word_of_int color) OR 0xFF\<rparr>"

definition init_item_text :: "cstrings \<Rightarrow> base_display_item \<Rightarrow> int \<Rightarrow> int \<Rightarrow> int \<Rightarrow> int option \<Rightarrow> addr \<Rightarrow>
    base_display_item" where
  "init_item_text cstring item x y fgcolor bgcolor t =
     item\<lparr>primitive := Text, item_x := x, item_y := y,
          data := store_text_data (push_bit 8 (word_of_int fgcolor) OR 0xFF) t (data item),
          brcolor := bgcolor_of bgcolor,
          item_height := 16, item_width := int (length (cstring t)) * 8\<rparr>"

text \<open>An item in zeroed memory, for the examples.\<close>

definition zero_item :: base_display_item where
  "zero_item = \<lparr>primitive = Invalid, item_x = 0, item_y = 0, item_width = 0, item_height = 0,
     brcolor = 0, data = \<lparr>bytes0 = 0, bytes4 = 0, bytes8 = 0\<rparr>, source_x = 0, source_y = 0,
     x_scale = 0, y_scale = 0\<rparr>"

section \<open>Damage tracker\<close>

definition int_min :: "int \<Rightarrow> int \<Rightarrow> int" where
  "int_min a b = (if a > b then b else a)"

definition int_max :: "int \<Rightarrow> int \<Rightarrow> int" where
  "int_max a b = (if a > b then a else b)"

definition cmp_display_item :: "cstrings \<Rightarrow> base_display_item \<Rightarrow> base_display_item \<Rightarrow> bool" where
  "cmp_display_item cstring a b =
     (if primitive a \<noteq> primitive b \<or> item_x a \<noteq> item_x b \<or> item_y a \<noteq> item_y b \<or>
         item_width a \<noteq> item_width b \<or> item_height a \<noteq> item_height b \<or> brcolor a \<noteq> brcolor b
      then False
      else (case primitive a of
              Image \<Rightarrow> image_data_pix (data a) = image_data_pix (data b)
            | Rect \<Rightarrow> True
            | Text \<Rightarrow> text_data_fgcolor (data a) = text_data_fgcolor (data b) \<and>
                strcmp (cstring (text_data_text (data a))) (cstring (text_data_text (data b))) = 0
            | ScaledCroppedImage \<Rightarrow>
                image_data_pix (data a) = image_data_pix (data b) \<and>
                x_scale a = x_scale b \<and> y_scale a = y_scale b \<and>
                source_x a = source_x b \<and> source_y a = source_y b
            | Invalid \<Rightarrow> True))"

text \<open>
  update_damaged_area mutates \<open>area\<close> field by field: the assignments to \<open>width\<close> and
  \<open>height\<close> read \<open>area->x\<close> and \<open>area->y\<close> after they have been assigned.
\<close>

definition update_damaged_area :: "rectangle \<Rightarrow> rectangle \<Rightarrow> rectangle" where
  "update_damaged_area area damage =
     (if rect_valid area then
        let a1 = area\<lparr>rect_x := int_min (rect_x area) (rect_x damage)\<rparr>;
            a2 = a1\<lparr>rect_y := int_min (rect_y a1) (rect_y damage)\<rparr>;
            a3 = a2\<lparr>rect_width :=
                    int_max (rect_x a2 + rect_width a2) (rect_x damage + rect_width damage) - rect_x a2\<rparr>;
            a4 = a3\<lparr>rect_height :=
                    int_max (rect_y a3 + rect_height a3) (rect_y damage + rect_height damage) - rect_y a3\<rparr>
        in a4
      else
        area\<lparr>rect_x := rect_x damage, rect_y := rect_y damage, rect_width := rect_width damage,
             rect_height := rect_height damage, rect_valid := True\<rparr>)"

definition clip_rectangle :: "rectangle \<Rightarrow> rectangle \<Rightarrow> rectangle" where
  "clip_rectangle rectangle clip_region =
     (let r1 = rectangle\<lparr>rect_x := int_max (rect_x rectangle) (rect_x clip_region)\<rparr>;
          r2 = r1\<lparr>rect_y := int_max (rect_y r1) (rect_y clip_region)\<rparr>;
          r3 = r2\<lparr>rect_width :=
                  int_min (rect_x r2 + rect_width r2) (rect_x clip_region + rect_width clip_region)
                    - rect_x r2\<rparr>;
          r4 = r3\<lparr>rect_height :=
                  int_min (rect_y r3 + rect_height r3) (rect_y clip_region + rect_height clip_region)
                    - rect_y r3\<rparr>
      in r4)"

text \<open>The local \<open>irect\<close> that dumb_diff builds from an item.\<close>

definition irect :: "base_display_item \<Rightarrow> rectangle" where
  "irect it = \<lparr>rect_x = item_x it, rect_y = item_y it, rect_width = item_width it,
               rect_height = item_height it, rect_valid = True\<rparr>"

text \<open>The branch \<open>orig_len == 0\<close>: every new item is damage.\<close>

fun damage_all :: "base_display_item list \<Rightarrow> rectangle \<Rightarrow> rectangle" where
  "damage_all [] damaged = damaged"
| "damage_all (n # ns) damaged = damage_all ns (update_damaged_area damaged (irect n))"

text \<open>
  The loop \<open>for (int k = j + 1; k < orig_len; k++)\<close>, started at \<open>k\<close>: the first
  \<open>k\<close> at which the new item matches \<open>orig[k]\<close>, or None when the loop ends with
  \<open>found\<close> still false.
\<close>

function scan_orig :: "cstrings \<Rightarrow> base_display_item list \<Rightarrow> base_display_item \<Rightarrow> nat \<Rightarrow> nat option" where
  "scan_orig cstring orig n k =
     (if k < length orig then
        if cmp_display_item cstring n (orig ! k) then Some k
        else scan_orig cstring orig n (k + 1)
      else None)"
  by pat_completeness auto
termination
  by (relation "measure (\<lambda>(cstring, orig, n, k). length orig - k)") auto

text \<open>The loop \<open>for (int l = k - j; l < k; l++)\<close>, started at \<open>l\<close>; \<open>l < k < orig_len\<close> there.\<close>

function damage_skipped :: "base_display_item list \<Rightarrow> nat \<Rightarrow> nat \<Rightarrow> rectangle \<Rightarrow> rectangle" where
  "damage_skipped orig l k damaged =
     (if l < k then damage_skipped orig (l + 1) k (update_damaged_area damaged (irect (orig ! l)))
      else damaged)"
  by pat_completeness auto
termination
  by (relation "measure (\<lambda>(orig, l, k, damaged). k - l)") auto

text \<open>
  The loop \<open>for (int i = 0; i < new_len; i++)\<close> over the items of \<open>new\<close> that remain,
  with the current \<open>j\<close>. \<open>orig[j]\<close> is read with no test of \<open>j\<close> against \<open>orig_len\<close>:
  a read past the end of the array is the error OutOfBounds.
\<close>

fun diff_loop :: "cstrings \<Rightarrow> base_display_item list \<Rightarrow> base_display_item list \<Rightarrow> nat \<Rightarrow>
    rectangle \<Rightarrow> error + rectangle" where
  "diff_loop cstring orig [] j damaged = Inr damaged"
| "diff_loop cstring orig (n # ns) j damaged =
     (if \<not> j < length orig then Inl OutOfBounds
      else if cmp_display_item cstring n (orig ! j) then diff_loop cstring orig ns (j + 1) damaged
      else (case scan_orig cstring orig n (j + 1) of
              Some k \<Rightarrow> diff_loop cstring orig ns (k + 1) (damage_skipped orig (k - j) k damaged)
            | None \<Rightarrow> diff_loop cstring orig ns j (update_damaged_area damaged (irect n))))"

definition dumb_diff :: "cstrings \<Rightarrow> base_display_item list \<Rightarrow> base_display_item list \<Rightarrow>
    rectangle \<Rightarrow> error + rectangle" where
  "dumb_diff cstring orig new damaged =
     (if length orig = 0 then Inr (damage_all new damaged)
      else diff_loop cstring orig new 0 damaged)"

section \<open>Row renderers\<close>

text \<open>
  The global \<open>screen\<close> and the memory the renderers read. \<open>map_rgb\<close> stands for
  \<open>SDL_MapRGB(screen->format, r, g, b)\<close> and \<open>fontdata\<close> for the glyph table of
  font.c, both outside this repository's sources and taken as parameters.
  \<open>pixels32 p i\<close> is the \<open>uint32_t\<close> read at \<open>((uint32_t *) p) + i\<close>, and
  \<open>strings\<close> gives the C string at an address. \<open>READ_32_UNALIGNED\<close> is a macro of
  utils.h, outside these sources too: \<open>read_32_unaligned p i\<close> is its value at
  \<open>((uint32_t *) p) + i\<close>, and nothing is assumed of how it orders the four bytes
  that \<open>pixels32 p i\<close> reads.
\<close>

record env =
  screen_w :: int
  screen_h :: int
  map_rgb :: "8 word \<Rightarrow> 8 word \<Rightarrow> 8 word \<Rightarrow> 32 word"
  pixels32 :: "addr \<Rightarrow> int \<Rightarrow> 32 word"
  read_32_unaligned :: "addr \<Rightarrow> int \<Rightarrow> 32 word"
  strings :: cstrings
  fontdata :: "int \<Rightarrow> 8 word"

text \<open>
  The frame buffer \<open>screen->pixels\<close>, as the memory reached from it: the pixel at
  \<open>(xpos, ypos)\<close> is at index \<open>screen->w * ypos + xpos\<close>. The model puts no bound on the
  index, as the C code does not.
\<close>

type_synonym framebuffer = "int \<Rightarrow> 32 word"

definition uint32_color_to_surface :: "env \<Rightarrow> 32 word \<Rightarrow> 32 word" where
  "uint32_color_to_surface e color =
     map_rgb e (ucast (drop_bit 24 color AND 0xFF)) (ucast (drop_bit 16 color AND 0xFF))
       (ucast (drop_bit 8 color AND 0xFF))"

text \<open>
  The test \<open>(*pixels >> 24) & 0xFF\<close> of the two image renderers, on the word that
  \<open>*pixels\<close> reads. The colour of an opaque pixel is mapped from \<open>img_pixel\<close>, the
  value of \<open>READ_32_UNALIGNED(pixels)\<close>.
\<close>

definition opaque_pixel :: "32 word \<Rightarrow> bool" where
  "opaque_pixel p = (drop_bit 24 p AND 0xFF \<noteq> 0)"

text \<open>
  The loop of draw_image_x. \<open>base\<close> is the index of \<open>pixmem32[0]\<close> in the frame buffer,
  \<open>pixels\<close> the index of the source pixel in the image buffer \<open>dat\<close>.
\<close>

function image_loop :: "env \<Rightarrow> addr \<Rightarrow> bool \<Rightarrow> 32 word \<Rightarrow> int \<Rightarrow> int \<Rightarrow> int \<Rightarrow> int \<Rightarrow> int \<Rightarrow>
    framebuffer \<Rightarrow> int \<times> framebuffer" where
  "image_loop e dat visible_bg bgcolor base width j pixels drawn_pixels fb =
     (if j < width then
        let img_pixel = read_32_unaligned e dat pixels in
        if opaque_pixel (pixels32 e dat pixels) then
          image_loop e dat visible_bg bgcolor base width (j + 1) (pixels + 1) (drawn_pixels + 1)
            (fb(base + drawn_pixels := uint32_color_to_surface e img_pixel))
        else if visible_bg then
          image_loop e dat visible_bg bgcolor base width (j + 1) (pixels + 1) (drawn_pixels + 1)
            (fb(base + drawn_pixels := bgcolor))
        else (drawn_pixels, fb)
      else (drawn_pixels, fb))"
  by pat_completeness auto
termination
  by (relation "measure (\<lambda>(e, dat, visible_bg, bgcolor, base, width, j, pixels, drawn_pixels, fb).
        nat (width - j))") auto

text \<open>
  \<open>bgcolor\<close> is assigned only when \<open>brcolor\<close> is not 0 and read only when
  \<open>visible_bg\<close> holds; the model computes it in both cases.
\<close>

definition draw_image_x :: "env \<Rightarrow> int \<Rightarrow> int \<Rightarrow> int \<Rightarrow> base_display_item \<Rightarrow> framebuffer \<Rightarrow>
    int \<times> framebuffer" where
  "draw_image_x e xpos ypos max_line_len item fb =
     (let x = item_x item;
          y = item_y item;
          bgcolor = uint32_color_to_surface e (brcolor item);
          visible_bg = (brcolor item \<noteq> 0);
          width = item_width item;
          dat = image_data_pix (data item);
          pixels = (ypos - y) * width + (xpos - x);
          base = screen_w e * ypos + xpos;
          width = (if width > xpos - x + max_line_len then xpos - x + max_line_len else width)
      in image_loop e dat visible_bg bgcolor base width (xpos - x) pixels 0 fb)"

text \<open>
  The loop of draw_scaled_cropped_img_x. The source pixel is read at
  \<open>row_base + col\<close>, where \<open>row_base\<close> is
  \<open>(source_y + (ypos - y) / y_scale) * img_width\<close> and \<open>col\<close> the column
  \<open>source_x + ...\<close> of the last assignment to \<open>pixels\<close>. The third component of the
  result lists the columns read, in order.
\<close>

function scaled_loop :: "env \<Rightarrow> addr \<Rightarrow> bool \<Rightarrow> 32 word \<Rightarrow> int \<Rightarrow> int \<Rightarrow> int \<Rightarrow> int \<Rightarrow> int \<Rightarrow> int \<Rightarrow>
    int \<Rightarrow> int \<Rightarrow> framebuffer \<Rightarrow> int list \<Rightarrow> int \<times> framebuffer \<times> int list" where
  "scaled_loop e dat visible_bg bgcolor base row_base src_x xs width j col drawn_pixels fb cols =
     (if j < width then
        let img_pixel = read_32_unaligned e dat (row_base + col) in
        if opaque_pixel (pixels32 e dat (row_base + col)) then
          scaled_loop e dat visible_bg bgcolor base row_base src_x xs width (j + 1)
            (src_x + (j sdiv xs)) (drawn_pixels + 1)
            (fb(base + drawn_pixels := uint32_color_to_surface e img_pixel)) (cols @ [col])
        else if visible_bg then
          scaled_loop e dat visible_bg bgcolor base row_base src_x xs width (j + 1)
            (src_x + (j sdiv xs)) (drawn_pixels + 1)
            (fb(base + drawn_pixels := bgcolor)) (cols @ [col])
        else (drawn_pixels, fb, cols @ [col])
      else (drawn_pixels, fb, cols))"
  by pat_completeness auto
termination
  by (relation "measure (\<lambda>(e, dat, visible_bg, bgcolor, base, row_base, src_x, xs, width, j, col,
        drawn_pixels, fb, cols). nat (width - j))") auto

definition draw_scaled_cropped_img_x :: "env \<Rightarrow> int \<Rightarrow> int \<Rightarrow> int \<Rightarrow> base_display_item \<Rightarrow>
    framebuffer \<Rightarrow> error + (int \<times> framebuffer \<times> int list)" where
  "draw_scaled_cropped_img_x e xpos ypos max_line_len item fb =
     (let x = item_x item;
          y = item_y item;
          bgcolor = uint32_color_to_surface e (brcolor item);
          visible_bg = (brcolor item \<noteq> 0);
          width = item_width item;
          dat = image_data_with_size_pix (data item);
          img_width = image_data_with_size_width (data item)
      in if y_scale item = 0 \<or> x_scale item = 0 then Inl DivByZero
         else
           let row_base = (source_y item + ((ypos - y) sdiv y_scale item)) * img_width;
               col = source_x item + ((xpos - x) sdiv x_scale item);
               base = screen_w e * ypos + xpos;
               width = (if source_x item + (width sdiv x_scale item) > img_width
                        then (img_width - source_x item) * x_scale item else width);
               width = (if width > xpos - x + max_line_len then xpos - x + max_line_len else width)
           in Inr (scaled_loop e dat visible_bg bgcolor base row_base (source_x item) (x_scale item)
                     width (xpos - x) col 0 fb []))"

function rect_loop :: "int \<Rightarrow> 32 word \<Rightarrow> int \<Rightarrow> int \<Rightarrow> int \<Rightarrow> framebuffer \<Rightarrow> int \<times> framebuffer" where
  "rect_loop base color width j drawn_pixels fb =
     (if j < width then
        rect_loop base color width (j + 1) (drawn_pixels + 1) (fb(base + drawn_pixels := color))
      else (drawn_pixels, fb))"
  by pat_completeness auto
termination
  by (relation "measure (\<lambda>(base, color, width, j, drawn_pixels, fb). nat (width - j))") auto

definition draw_rect_x :: "env \<Rightarrow> int \<Rightarrow> int \<Rightarrow> int \<Rightarrow> base_display_item \<Rightarrow> framebuffer \<Rightarrow>
    int \<times> framebuffer" where
  "draw_rect_x e xpos ypos max_line_len item fb =
     (let x = item_x item;
          width = item_width item;
          color = uint32_color_to_surface e (brcolor item);
          base = screen_w e * ypos + xpos;
          width = (if width > xpos - x + max_line_len then xpos - x + max_line_len else width)
      in rect_loop base color width (xpos - x) 0 fb)"

text \<open>
  \<open>text[char_index]\<close>: a byte of the string, its terminating NUL, or a read outside
  the string.
\<close>

definition text_at :: "8 word list \<Rightarrow> int \<Rightarrow> error + 8 word" where
  "text_at s i =
     (if 0 \<le> i \<and> i < int (length s) then Inr (s ! nat i)
      else if i = int (length s) then Inr 0
      else Inl OutOfBounds)"

text \<open>The loop of draw_text_x; \<open>CHAR_WIDTH\<close> is 8 and \<open>dy\<close> is \<open>ypos - y\<close>.\<close>

function text_loop :: "env \<Rightarrow> 8 word list \<Rightarrow> 32 word \<Rightarrow> bool \<Rightarrow> 32 word \<Rightarrow> int \<Rightarrow> int \<Rightarrow> int \<Rightarrow> int \<Rightarrow>
    int \<Rightarrow> framebuffer \<Rightarrow> error + (int \<times> framebuffer)" where
  "text_loop e str fgcolor visible_bg bgcolor base dy width j drawn_pixels fb =
     (if j < width then
        let char_index = j sdiv 8 in
        case text_at str char_index of
          Inl err \<Rightarrow> Inl err
        | Inr c \<Rightarrow>
            let row = fontdata e (uint c * 16 + dy);
                k = j smod 8;
                opaque = (uint row AND push_bit (nat (7 - k)) 1 \<noteq> 0)
            in if opaque then
                 text_loop e str fgcolor visible_bg bgcolor base dy width (j + 1) (drawn_pixels + 1)
                   (fb(base + drawn_pixels := fgcolor))
               else if visible_bg then
                 text_loop e str fgcolor visible_bg bgcolor base dy width (j + 1) (drawn_pixels + 1)
                   (fb(base + drawn_pixels := bgcolor))
               else Inr (drawn_pixels, fb)
      else Inr (drawn_pixels, fb))"
  by pat_completeness auto
termination
  by (relation "measure (\<lambda>(e, str, fgcolor, visible_bg, bgcolor, base, dy, width, j, drawn_pixels, fb).
        nat (width - j))") auto

definition draw_text_x :: "env \<Rightarrow> int \<Rightarrow> int \<Rightarrow> int \<Rightarrow> base_display_item \<Rightarrow> framebuffer \<Rightarrow>
    error + (int \<times> framebuffer)" where
  "draw_text_x e xpos ypos max_line_len item fb =
     (let x = item_x item;
          y = item_y item;
          fgcolor = uint32_color_to_surface e (text_data_fgcolor (data item));
          bgcolor = uint32_color_to_surface e (brcolor item);
          visible_bg = (brcolor item \<noteq> 0);
          str = strings e (text_data_text (data item));
          width = item_width item;
          base = screen_w e * ypos + xpos;
          width = (if width > xpos - x + max_line_len then xpos - x + max_line_len else width)
      in text_loop e str fgcolor visible_bg bgcolor base (ypos - y) width (xpos - x) 0 fb)"

section \<open>Compositor\<close>

fun max_line_len_loop :: "base_display_item list \<Rightarrow> int \<Rightarrow> int \<Rightarrow> int \<Rightarrow> int" where
  "max_line_len_loop [] xpos ypos line_len = line_len"
| "max_line_len_loop (item # items) xpos ypos line_len =
     max_line_len_loop items xpos ypos
       (if xpos < item_x item \<and> ypos \<ge> item_y item \<and> ypos < item_y item + item_height item then
          let len_to_item = item_x item - xpos
          in (if line_len > len_to_item then len_to_item else line_len)
        else line_len)"

definition find_max_line_len :: "env \<Rightarrow> base_display_item list \<Rightarrow> nat \<Rightarrow> int \<Rightarrow> int \<Rightarrow> int" where
  "find_max_line_len e items count xpos ypos =
     max_line_len_loop (take count items) xpos ypos (screen_w e)"

text \<open>The \<open>switch\<close> of draw_x; the default case prints a message and leaves 0.\<close>

definition draw_item :: "env \<Rightarrow> int \<Rightarrow> int \<Rightarrow> int \<Rightarrow> base_display_item \<Rightarrow> framebuffer \<Rightarrow>
    error + (int \<times> framebuffer)" where
  "draw_item e xpos ypos max_line_len item fb =
     (case primitive item of
        Image \<Rightarrow> Inr (draw_image_x e xpos ypos max_line_len item fb)
      | ScaledCroppedImage \<Rightarrow>
          (case draw_scaled_cropped_img_x e xpos ypos max_line_len item fb of
             Inl err \<Rightarrow> Inl err
           | Inr (drawn_pixels, fb', cols) \<Rightarrow> Inr (drawn_pixels, fb'))
      | Rect \<Rightarrow> Inr (draw_rect_x e xpos ypos max_line_len item fb)
      | Text \<Rightarrow> draw_text_x e xpos ypos max_line_len item fb
      | Invalid \<Rightarrow> Inr (0, fb))"

text \<open>The loop \<open>for (int i = 0; i < items_count; i++)\<close> of draw_x, from \<open>i\<close> on.\<close>

function draw_x_loop :: "env \<Rightarrow> int \<Rightarrow> int \<Rightarrow> base_display_item list \<Rightarrow> nat \<Rightarrow> bool \<Rightarrow> framebuffer \<Rightarrow>
    error + (int \<times> framebuffer)" where
  "draw_x_loop e xpos ypos items i below fb =
     (if i < length items then
        let item = items ! i in
        if xpos < item_x item \<or> xpos \<ge> item_x item + item_width item \<or>
           ypos < item_y item \<or> ypos \<ge> item_y item + item_height item
        then draw_x_loop e xpos ypos items (i + 1) below fb
        else
          let max_line_len = (if below then 1 else find_max_line_len e items i xpos ypos) in
          case draw_item e xpos ypos max_line_len item fb of
            Inl err \<Rightarrow> Inl err
          | Inr (drawn_pixels, fb') \<Rightarrow>
              if drawn_pixels \<noteq> 0 then Inr (drawn_pixels, fb')
              else draw_x_loop e xpos ypos items (i + 1) True fb'
      else Inr (1, fb))"
  by pat_completeness auto
termination
  by (relation "measure (\<lambda>(e, xpos, ypos, items, i, below, fb). length items - i)") auto

definition draw_x :: "env \<Rightarrow> int \<Rightarrow> int \<Rightarrow> base_display_item list \<Rightarrow> framebuffer \<Rightarrow>
    error + (int \<times> framebuffer)" where
  "draw_x e xpos ypos items fb = draw_x_loop e xpos ypos items 0 False fb"

section \<open>Progress of the renderers\<close>

text \<open>
  The equations of the loops are unconditional; they are unfolded by hand. Each renderer
  returns a count that is not negative, and draw_x a count of at least 1: the row loop of
  do_update terminates by this.
\<close>

declare image_loop.simps [simp del] scaled_loop.simps [simp del] rect_loop.simps [simp del]
  text_loop.simps [simp del] draw_x_loop.simps [simp del] scan_orig.simps [simp del]
  damage_skipped.simps [simp del]

lemma image_loop_done:
  "\<not> j < width \<Longrightarrow>
   image_loop e dat visible_bg bgcolor base width j pixels drawn_pixels fb = (drawn_pixels, fb)"
  by (subst image_loop.simps) simp

lemma image_loop_opaque:
  "j < width \<Longrightarrow> opaque_pixel (pixels32 e dat pixels) \<Longrightarrow>
   image_loop e dat visible_bg bgcolor base width j pixels drawn_pixels fb =
   image_loop e dat visible_bg bgcolor base width (j + 1) (pixels + 1) (drawn_pixels + 1)
     (fb(base + drawn_pixels := uint32_color_to_surface e (read_32_unaligned e dat pixels)))"
  by (subst image_loop.simps) (simp add: Let_def)

lemma image_loop_bg:
  "j < width \<Longrightarrow> \<not> opaque_pixel (pixels32 e dat pixels) \<Longrightarrow> visible_bg \<Longrightarrow>
   image_loop e dat visible_bg bgcolor base width j pixels drawn_pixels fb =
   image_loop e dat visible_bg bgcolor base width (j + 1) (pixels + 1) (drawn_pixels + 1)
     (fb(base + drawn_pixels := bgcolor))"
  by (subst image_loop.simps) (simp add: Let_def)

lemma image_loop_stop:
  "j < width \<Longrightarrow> \<not> opaque_pixel (pixels32 e dat pixels) \<Longrightarrow> \<not> visible_bg \<Longrightarrow>
   image_loop e dat visible_bg bgcolor base width j pixels drawn_pixels fb = (drawn_pixels, fb)"
  by (subst image_loop.simps) (simp add: Let_def)

lemmas image_loop_unfold = image_loop_done image_loop_opaque image_loop_bg image_loop_stop

lemma image_loop_drawn_ge:
  "image_loop e dat visible_bg bgcolor base width j pixels drawn_pixels fb = (n, fb')
    \<Longrightarrow> drawn_pixels \<le> n"
proof (induction e dat visible_bg bgcolor base width j pixels drawn_pixels fb rule: image_loop.induct)
  case (1 e dat visible_bg bgcolor base width j pixels drawn_pixels fb)
  let ?px = "pixels32 e dat pixels"
  consider (finished) "\<not> j < width" | (opaque) "j < width" "opaque_pixel ?px"
    | (bg) "j < width" "\<not> opaque_pixel ?px" "visible_bg"
    | (stop) "j < width" "\<not> opaque_pixel ?px" "\<not> visible_bg"
    by blast
  then show ?case
  proof cases
    case finished
    with "1.prems" show ?thesis by (simp add: image_loop_done)
  next
    case opaque
    have "drawn_pixels + 1 \<le> n"
      by (rule "1.IH"(1) [OF opaque(1) refl opaque(2)])
         (use "1.prems" opaque in \<open>simp add: image_loop_opaque del: fun_upd_apply\<close>)
    then show ?thesis by simp
  next
    case bg
    have "drawn_pixels + 1 \<le> n"
      by (rule "1.IH"(2) [OF bg(1) refl bg(2) bg(3)])
         (use "1.prems" bg in \<open>simp add: image_loop_bg del: fun_upd_apply\<close>)
    then show ?thesis by simp
  next
    case stop
    with "1.prems" show ?thesis by (simp add: image_loop_stop)
  qed
qed

lemma scaled_loop_done:
  "\<not> j < width \<Longrightarrow>
   scaled_loop e dat visible_bg bgcolor base row_base src_x xs width j col drawn_pixels fb cols =
   (drawn_pixels, fb, cols)"
  by (subst scaled_loop.simps) simp

lemma scaled_loop_opaque:
  "j < width \<Longrightarrow> opaque_pixel (pixels32 e dat (row_base + col)) \<Longrightarrow>
   scaled_loop e dat visible_bg bgcolor base row_base src_x xs width j col drawn_pixels fb cols =
   scaled_loop e dat visible_bg bgcolor base row_base src_x xs width (j + 1) (src_x + (j sdiv xs))
     (drawn_pixels + 1)
     (fb(base + drawn_pixels := uint32_color_to_surface e (read_32_unaligned e dat (row_base + col))))
     (cols @ [col])"
  by (subst scaled_loop.simps) (simp add: Let_def)

lemma scaled_loop_bg:
  "j < width \<Longrightarrow> \<not> opaque_pixel (pixels32 e dat (row_base + col)) \<Longrightarrow> visible_bg \<Longrightarrow>
   scaled_loop e dat visible_bg bgcolor base row_base src_x xs width j col drawn_pixels fb cols =
   scaled_loop e dat visible_bg bgcolor base row_base src_x xs width (j + 1) (src_x + (j sdiv xs))
     (drawn_pixels + 1) (fb(base + drawn_pixels := bgcolor)) (cols @ [col])"
  by (subst scaled_loop.simps) (simp add: Let_def)

lemma scaled_loop_stop:
  "j < width \<Longrightarrow> \<not> opaque_pixel (pixels32 e dat (row_base + col)) \<Longrightarrow> \<not> visible_bg \<Longrightarrow>
   scaled_loop e dat visible_bg bgcolor base row_base src_x xs width j col drawn_pixels fb cols =
   (drawn_pixels, fb, cols @ [col])"
  by (subst scaled_loop.simps) (simp add: Let_def)

lemmas scaled_loop_unfold = scaled_loop_done scaled_loop_opaque scaled_loop_bg scaled_loop_stop

lemma scaled_loop_drawn_ge:
  "scaled_loop e dat visible_bg bgcolor base row_base src_x xs width j col drawn_pixels fb cols
     = (n, fb', cols') \<Longrightarrow> drawn_pixels \<le> n"
proof (induction e dat visible_bg bgcolor base row_base src_x xs width j col drawn_pixels fb cols
    rule: scaled_loop.induct)
  case (1 e dat visible_bg bgcolor base row_base src_x xs width j col drawn_pixels fb cols)
  let ?px = "pixels32 e dat (row_base + col)"
  consider (finished) "\<not> j < width" | (opaque) "j < width" "opaque_pixel ?px"
    | (bg) "j < width" "\<not> opaque_pixel ?px" "visible_bg"
    | (stop) "j < width" "\<not> opaque_pixel ?px" "\<not> visible_bg"
    by blast
  then show ?case
  proof cases
    case finished
    with "1.prems" show ?thesis by (simp add: scaled_loop_done)
  next
    case opaque
    have "drawn_pixels + 1 \<le> n"
      by (rule "1.IH"(1) [OF opaque(1) refl opaque(2)])
         (use "1.prems" opaque in \<open>simp add: scaled_loop_opaque del: fun_upd_apply\<close>)
    then show ?thesis by simp
  next
    case bg
    have "drawn_pixels + 1 \<le> n"
      by (rule "1.IH"(2) [OF bg(1) refl bg(2) bg(3)])
         (use "1.prems" bg in \<open>simp add: scaled_loop_bg del: fun_upd_apply\<close>)
    then show ?thesis by simp
  next
    case stop
    with "1.prems" show ?thesis by (simp add: scaled_loop_stop)
  qed
qed

lemma rect_loop_done:
  "\<not> j < width \<Longrightarrow> rect_loop base color width j drawn_pixels fb = (drawn_pixels, fb)"
  by (subst rect_loop.simps) simp

lemma rect_loop_step:
  "j < width \<Longrightarrow> rect_loop base color width j drawn_pixels fb =
     rect_loop base color width (j + 1) (drawn_pixels + 1) (fb(base + drawn_pixels := color))"
  by (subst rect_loop.simps) simp

lemma rect_loop_drawn_ge:
  "rect_loop base color width j drawn_pixels fb = (n, fb') \<Longrightarrow> drawn_pixels \<le> n"
proof (induction base color width j drawn_pixels fb rule: rect_loop.induct)
  case (1 base color width j drawn_pixels fb)
  show ?case
  proof (cases "j < width")
    case True
    have "drawn_pixels + 1 \<le> n"
      by (rule "1.IH" [OF True]) (use "1.prems" True in \<open>simp add: rect_loop_step del: fun_upd_apply\<close>)
    then show ?thesis by simp
  next
    case False
    with "1.prems" show ?thesis by (simp add: rect_loop_done)
  qed
qed

lemma text_loop_drawn_ge:
  "text_loop e str fgcolor visible_bg bgcolor base dy width j drawn_pixels fb = Inr (n, fb')
    \<Longrightarrow> drawn_pixels \<le> n"
proof (induction e str fgcolor visible_bg bgcolor base dy width j drawn_pixels fb
    rule: text_loop.induct)
  case (1 e str fgcolor visible_bg bgcolor base dy width j drawn_pixels fb)
  show ?case
  proof (cases "j < width")
    case False
    with "1.prems" show ?thesis by (subst (asm) text_loop.simps) simp
  next
    case True
    show ?thesis
    proof (cases "text_at str (j sdiv 8)")
      case (Inl err)
      with "1.prems" True show ?thesis by (subst (asm) text_loop.simps) simp
    next
      case (Inr c)
      let ?opaque = "uint (fontdata e (uint c * 16 + dy)) AND push_bit (nat (7 - j smod 8)) 1 \<noteq> 0"
      consider (fg) "?opaque" | (bg) "\<not> ?opaque" "visible_bg" | (stop) "\<not> ?opaque" "\<not> visible_bg"
        by blast
      then show ?thesis
      proof cases
        case fg
        have "drawn_pixels + 1 \<le> n"
          by (rule "1.IH"(1) [OF True refl Inr refl refl refl fg])
             (use "1.prems" True Inr fg in \<open>subst (asm) text_loop.simps, simp add: Let_def del: fun_upd_apply\<close>)
        then show ?thesis by simp
      next
        case bg
        have "drawn_pixels + 1 \<le> n"
          by (rule "1.IH"(2) [OF True refl Inr refl refl refl bg])
             (use "1.prems" True Inr bg in \<open>subst (asm) text_loop.simps, simp add: Let_def del: fun_upd_apply\<close>)
        then show ?thesis by simp
      next
        case stop
        with "1.prems" True Inr show ?thesis
          by (subst (asm) text_loop.simps) (simp add: Let_def)
      qed
    qed
  qed
qed

lemma draw_item_nonneg:
  "draw_item e xpos ypos max_line_len item fb = Inr (n, fb') \<Longrightarrow> 0 \<le> n"
  unfolding draw_item_def draw_image_x_def draw_rect_x_def draw_text_x_def
    draw_scaled_cropped_img_x_def
  by (auto simp: Let_def split: primitive.splits sum.splits if_splits prod.splits
      dest: text_loop_drawn_ge image_loop_drawn_ge rect_loop_drawn_ge scaled_loop_drawn_ge)

lemma draw_x_loop_pos:
  "draw_x_loop e xpos ypos items i below fb = Inr (n, fb') \<Longrightarrow> 1 \<le> n"
proof (induction e xpos ypos items i below fb rule: draw_x_loop.induct)
  case (1 e xpos ypos items i below fb)
  let ?item = "items ! i"
  let ?outside = "xpos < item_x ?item \<or> xpos \<ge> item_x ?item + item_width ?item \<or>
           ypos < item_y ?item \<or> ypos \<ge> item_y ?item + item_height ?item"
  let ?len = "if below then 1 else find_max_line_len e items i xpos ypos"
  show ?case
  proof (cases "i < length items")
    case False
    with "1.prems" show ?thesis by (subst (asm) draw_x_loop.simps) simp
  next
    case True
    show ?thesis
    proof (cases ?outside)
      case out: True
      show ?thesis
        by (rule "1.IH"(1) [OF True refl out])
           (use "1.prems" True out in \<open>subst (asm) draw_x_loop.simps, simp add: Let_def del: fun_upd_apply\<close>)
    next
      case inside: False
      show ?thesis
      proof (cases "draw_item e xpos ypos ?len ?item fb")
        case (Inl err)
        with "1.prems" True inside show ?thesis
          by (subst (asm) draw_x_loop.simps) (simp add: Let_def)
      next
        case (Inr r)
        obtain d fb1 where r: "r = (d, fb1)" by (cases r)
        from Inr r have nonneg: "0 \<le> d" by (auto dest: draw_item_nonneg)
        show ?thesis
        proof (cases "d \<noteq> 0")
          case True
          with "1.prems" \<open>i < length items\<close> inside Inr r nonneg show ?thesis
            by (subst (asm) draw_x_loop.simps) (simp add: Let_def)
        next
          case zero: False
          show ?thesis
            by (rule "1.IH"(2) [OF True refl inside refl Inr r [symmetric] zero])
               (use "1.prems" True inside Inr r zero in
                 \<open>subst (asm) draw_x_loop.simps, simp add: Let_def del: fun_upd_apply\<close>)
        qed
      qed
    qed
  qed
qed


lemma draw_x_pos: "draw_x e xpos ypos items fb = Inr (n, fb') \<Longrightarrow> 1 \<le> n"
  unfolding draw_x_def by (rule draw_x_loop_pos)

section \<open>Frame update\<close>

text \<open>
  The loop \<open>while (xpos < damaged.x + damaged.width)\<close> of do_update on row \<open>ypos\<close>,
  with \<open>xend\<close> for \<open>damaged.x + damaged.width\<close>.
\<close>

function repaint_row :: "env \<Rightarrow> base_display_item list \<Rightarrow> int \<Rightarrow> int \<Rightarrow> int \<Rightarrow> framebuffer \<Rightarrow>
    error + framebuffer" where
  "repaint_row e items ypos xend xpos fb =
     (if xpos < xend then
        case draw_x e xpos ypos items fb of
          Inl err \<Rightarrow> Inl err
        | Inr (drawn_pixels, fb') \<Rightarrow> repaint_row e items ypos xend (xpos + drawn_pixels) fb'
      else Inr fb)"
  by pat_completeness auto
termination
proof (relation "measure (\<lambda>(e, items, ypos, xend, xpos, fb). nat (xend - xpos))")
  show "wf (measure (\<lambda>(e, items, ypos, xend, xpos, fb). nat (xend - xpos)))"
    by simp
next
  fix e :: env and items :: "base_display_item list" and ypos xend xpos :: int
    and fb :: framebuffer and r :: "int \<times> framebuffer" and drawn_pixels :: int
    and fb' :: framebuffer
  assume "xpos < xend" and "draw_x e xpos ypos items fb = Inr r" and "(drawn_pixels, fb') = r"
  then have "1 \<le> drawn_pixels"
    by (auto dest: draw_x_pos)
  with \<open>xpos < xend\<close>
  show "((e, items, ypos, xend, xpos + drawn_pixels, fb'), (e, items, ypos, xend, xpos, fb))
      \<in> measure (\<lambda>(e, items, ypos, xend, xpos, fb). nat (xend - xpos))"
    by simp
qed

text \<open>The loop \<open>for (int ypos = damaged.y; ypos < damaged.y + damaged.height; ypos++)\<close>.\<close>

function repaint_rows :: "env \<Rightarrow> base_display_item list \<Rightarrow> rectangle \<Rightarrow> int \<Rightarrow> framebuffer \<Rightarrow>
    error + framebuffer" where
  "repaint_rows e items damaged ypos fb =
     (if ypos < rect_y damaged + rect_height damaged then
        case repaint_row e items ypos (rect_x damaged + rect_width damaged) (rect_x damaged) fb of
          Inl err \<Rightarrow> Inl err
        | Inr fb' \<Rightarrow> repaint_rows e items damaged (ypos + 1) fb'
      else Inr fb)"
  by pat_completeness auto
termination
  by (relation "measure (\<lambda>(e, items, damaged, ypos, fb).
        nat (rect_y damaged + rect_height damaged - ypos))") auto

definition repaint :: "env \<Rightarrow> base_display_item list \<Rightarrow> rectangle \<Rightarrow> framebuffer \<Rightarrow>
    error + framebuffer" where
  "repaint e items damaged fb = repaint_rows e items damaged (rect_y damaged) fb"

text \<open>
  The state that do_update keeps between frames: the globals \<open>prev_items\<close> (with
  \<open>prev_items_len\<close> its length) and the frame buffer.
\<close>

record display =
  prev_items :: "base_display_item list"
  screen_pixels :: framebuffer

text \<open>
  The local \<open>damaged\<close> of do_update after \<open>damaged.valid = false\<close>. Its other fields
  are not initialised in C; update_damaged_area assigns all of them before any is read.
\<close>

definition no_damage :: rectangle where
  "no_damage = \<lparr>rect_x = 0, rect_y = 0, rect_width = 0, rect_height = 0, rect_valid = False\<rparr>"

text \<open>
  do_update from the decoded items on: the diff against the previous items, which the new
  items replace, then the repaint unless nothing is damaged. An error ends the program.
\<close>

definition do_update :: "env \<Rightarrow> display \<Rightarrow> base_display_item list \<Rightarrow> error + display" where
  "do_update e st items =
     (case dumb_diff (strings e) (prev_items st) items no_damage of
        Inl err \<Rightarrow> Inl err
      | Inr damaged \<Rightarrow>
          let st = st\<lparr>prev_items := items\<rparr> in
          if \<not> rect_valid damaged then Inr st
          else
            let screen_rect = \<lparr>rect_x = 0, rect_y = 0, rect_width = screen_w e,
                               rect_height = screen_h e, rect_valid = True\<rparr>;
                damaged = clip_rectangle damaged screen_rect;
                damaged = damaged\<lparr>rect_x := 0, rect_y := 0, rect_height := screen_h e,
                                  rect_width := screen_w e\<rparr>
            in (case repaint e items damaged (screen_pixels st) of
                  Inl err \<Rightarrow> Inl err
                | Inr fb' \<Rightarrow> Inr (st\<lparr>screen_pixels := fb'\<rparr>)))"

text \<open>
  What draw_x needs of an item to return: a scaled cropped image has no scale of 0 (the
  renderer divides by both), and a text is not wider than its string with the
  terminating NUL, at 8 columns a character (init_item makes it 8 columns a character of
  the string). Both are part of the invariants of the data model.
\<close>

definition valid_item :: "env \<Rightarrow> base_display_item \<Rightarrow> bool" where
  "valid_item e item =
     (case primitive item of
        ScaledCroppedImage \<Rightarrow> x_scale item \<noteq> 0 \<and> y_scale item \<noteq> 0
      | Text \<Rightarrow> item_width item \<le> 8 * (int (length (strings e (text_data_text (data item)))) + 1)
      | _ \<Rightarrow> True)"

text \<open>
  An environment for the examples: a 4 by 1 screen whose pixel format keeps the three
  colour bytes, an image buffer at 0x1000 that is transparent everywhere, and the string
  \<open>Hi\<close> at the addresses 0x100 and 0x200.
\<close>

definition example_env :: env where
  "example_env = \<lparr>screen_w = 4, screen_h = 1,
     map_rgb = (\<lambda>r g b. push_bit 16 (ucast r) OR push_bit 8 (ucast g) OR ucast b),
     pixels32 = (\<lambda>p i. 0),
     read_32_unaligned = (\<lambda>p i. 0),
     strings = (\<lambda>p. if p = 0x100 \<or> p = 0x200 then [72, 105] else []),
     fontdata = (\<lambda>i. 0)\<rparr>"


section \<open>Properties of the damage tracker\<close>

lemma strcmp_eq_0: "strcmp s t = 0 \<longleftrightarrow> s = t"
  by (induction s t rule: strcmp.induct) auto

lemma diff_loop_equivalent:
  "list_all2 (cmp_display_item cs) new (drop j orig) \<Longrightarrow>
   diff_loop cs orig new j damaged = Inr damaged"
proof (induction new arbitrary: j)
  case Nil
  show ?case by simp
next
  case (Cons n ns)
  from Cons.prems obtain p ps where d: "drop j orig = p # ps"
    and np: "cmp_display_item cs n p" and rest: "list_all2 (cmp_display_item cs) ns ps"
    by (auto simp: list_all2_Cons1)
  from d have j: "j < length orig"
    by (cases "j < length orig") auto
  from d j have p: "orig ! j = p" and ps: "drop (j + 1) orig = ps"
    by (simp_all add: Cons_nth_drop_Suc [symmetric])
  from rest ps have "diff_loop cs orig ns (j + 1) damaged = Inr damaged"
    by (intro Cons.IH) simp
  with j p np show ?case by simp
qed

text \<open>
  C2 (update_damaged_area). With a valid accumulator A = (10, 10, 10, 10) and
  B = (0, 0, 5, 5) the smallest rectangle covering both is (0, 0, 20, 20). The code
  assigns \<open>area->x\<close> and \<open>area->y\<close> first and computes the new width and height from
  the assigned values: it returns (0, 0, 10, 10), whose right and bottom edges are 10,
  not the maximum 20 of the two right edges taken before the mutation.
\<close>

theorem update_damaged_area_stale_edges:
  "update_damaged_area
     \<lparr>rect_x = 10, rect_y = 10, rect_width = 10, rect_height = 10, rect_valid = True\<rparr>
     \<lparr>rect_x = 0, rect_y = 0, rect_width = 5, rect_height = 5, rect_valid = True\<rparr>
   = \<lparr>rect_x = 0, rect_y = 0, rect_width = 10, rect_height = 10, rect_valid = True\<rparr>"
  by (simp add: update_damaged_area_def int_min_def int_max_def)

text \<open>
  C3 (dumb_diff, skipped items). The previous list is two rectangles, the new list is the
  second of them. The new item does not match \<open>orig[0]\<close> and is found at \<open>k = 1\<close>;
  the loop over the skipped items starts at \<open>k - j = 1\<close>, not at \<open>j = 0\<close>, so it
  does not run: the bounding box of the rectangle that disappeared is not added and the
  damage stays invalid.
\<close>

theorem dumb_diff_skipped_not_damaged:
  "dumb_diff cs
     [init_item_rect item 0 0 10 10 0xFF0000, init_item_rect item 20 20 5 5 0xFF]
     [init_item_rect item 20 20 5 5 0xFF] no_damage = Inr no_damage"
  apply (simp add: dumb_diff_def)
  apply (subst scan_orig.simps)
  apply (simp add: cmp_display_item_def init_item_rect_def)
  apply (subst damage_skipped.simps)
  apply simp
  done

text \<open>
  C4 (diff of equivalent lists). When the new list is, element by element and in the same
  order, equivalent to the previous one, dumb_diff leaves the damage as it was: invalid in
  do_update, which then replaces the previous items and returns with no repaint.
\<close>

theorem dumb_diff_equivalent_no_damage:
  assumes "list_all2 (cmp_display_item (strings e)) items (prev_items st)"
  shows "dumb_diff (strings e) (prev_items st) items no_damage = Inr no_damage \<and>
         \<not> rect_valid no_damage \<and>
         do_update e st items = Inr (st\<lparr>prev_items := items\<rparr>)"
proof -
  have "dumb_diff (strings e) (prev_items st) items no_damage = Inr no_damage"
  proof (cases "length (prev_items st) = 0")
    case True
    with assms show ?thesis by (simp add: dumb_diff_def)
  next
    case False
    with assms show ?thesis by (simp add: dumb_diff_def diff_loop_equivalent)
  qed
  then show ?thesis by (simp add: do_update_def no_damage_def)
qed

theorem dumb_diff_equivalent_no_damage_witness:
  "list_all2 (cmp_display_item (strings example_env))
     [init_item_text (strings example_env) zero_item 0 0 0xFFFFFF None 0x200,
      init_item_rect zero_item 0 0 4 1 0xFF]
     (prev_items \<lparr>prev_items =
        [init_item_text (strings example_env) zero_item 0 0 0xFFFFFF None 0x100,
         init_item_rect zero_item 0 0 4 1 0xFF], screen_pixels = (\<lambda>i. 0)\<rparr>) \<and>
   do_update example_env
     \<lparr>prev_items =
        [init_item_text (strings example_env) zero_item 0 0 0xFFFFFF None 0x100,
         init_item_rect zero_item 0 0 4 1 0xFF], screen_pixels = (\<lambda>i. 0)\<rparr>
     [init_item_text (strings example_env) zero_item 0 0 0xFFFFFF None 0x200,
      init_item_rect zero_item 0 0 4 1 0xFF]
   = Inr \<lparr>prev_items =
        [init_item_text (strings example_env) zero_item 0 0 0xFFFFFF None 0x200,
         init_item_rect zero_item 0 0 4 1 0xFF], screen_pixels = (\<lambda>i. 0)\<rparr>"
proof -
  let ?st = "\<lparr>prev_items =
        [init_item_text (strings example_env) zero_item 0 0 0xFFFFFF None 0x100,
         init_item_rect zero_item 0 0 4 1 0xFF], screen_pixels = (\<lambda>i. 0) :: framebuffer\<rparr>"
  have h: "list_all2 (cmp_display_item (strings example_env))
     [init_item_text (strings example_env) zero_item 0 0 0xFFFFFF None 0x200,
      init_item_rect zero_item 0 0 4 1 0xFF] (prev_items ?st)"
    by (simp add: cmp_display_item_def init_item_text_def init_item_rect_def example_env_def
        zero_item_def store_text_data_def text_data_fgcolor_def text_data_text_def)
  from dumb_diff_equivalent_no_damage [OF h] h show ?thesis
    by simp
qed

text \<open>
  C6 (dumb_diff, index into the previous list). The previous list has one rectangle and
  the new list has the same rectangle followed by another. After the first match
  \<open>j = 1 = orig_len\<close>, and the next iteration reads \<open>orig[1]\<close>: the loop has no test of
  \<open>j\<close> against \<open>orig_len\<close>.
\<close>

theorem dumb_diff_reads_past_orig:
  "dumb_diff cs
     [init_item_rect item 0 0 10 10 0xFF0000]
     [init_item_rect item 0 0 10 10 0xFF0000, init_item_rect item 20 20 5 5 0xFF] no_damage
   = Inl OutOfBounds"
  by (simp add: dumb_diff_def cmp_display_item_def init_item_rect_def)

text \<open>
  C7 (equivalence of scaled cropped images). Two ScaledCroppedImage items that init_item
  builds from the same request but for the pixel buffer, 0x1000 in one and 0x2000 in the
  other, are equivalent for cmp_display_item: it compares \<open>data.image_data.pix\<close>, the
  first 8 bytes of the union, where these items hold the width and height of the backing
  image; their buffer is in \<open>data.image_data_with_size.pix\<close>, which is not compared.
\<close>

theorem cmp_display_item_ignores_scaled_pix:
  "cmp_display_item cs
     (init_item_scaled_cropped_image item 0 0 10 10 None 0 0 2 2 5 5 0x1000)
     (init_item_scaled_cropped_image item 0 0 10 10 None 0 0 2 2 5 5 0x2000) \<and>
   image_data_with_size_pix (data (init_item_scaled_cropped_image item 0 0 10 10 None 0 0 2 2 5 5 0x1000))
     \<noteq> image_data_with_size_pix (data (init_item_scaled_cropped_image item 0 0 10 10 None 0 0 2 2 5 5 0x2000))"
  by (simp add: cmp_display_item_def init_item_scaled_cropped_image_def
      store_image_data_with_size_def image_data_pix_def image_data_with_size_pix_def)

theorem cmp_display_item_ignores_scaled_pix_witness:
  "cmp_display_item (strings example_env)
     (init_item_scaled_cropped_image zero_item 0 0 10 10 None 0 0 2 2 5 5 0x1000)
     (init_item_scaled_cropped_image zero_item 0 0 10 10 None 0 0 2 2 5 5 0x2000)"
  using cmp_display_item_ignores_scaled_pix [of "strings example_env" zero_item]
  by simp

text \<open>
  C9 (no damage, no repaint). When the diff of a frame leaves the damage rectangle
  invalid, do_update returns after it has replaced the previous items: the frame buffer
  of the new state is the frame buffer of the old one.
\<close>

theorem do_update_no_damage_keeps_pixels:
  assumes "dumb_diff (strings e) (prev_items st) items no_damage = Inr damaged"
    and "\<not> rect_valid damaged"
  shows "\<exists>st'. do_update e st items = Inr st' \<and> screen_pixels st' = screen_pixels st \<and> prev_items st' = items"
  using assms by (simp add: do_update_def)

theorem do_update_no_damage_keeps_pixels_witness:
  "dumb_diff (strings example_env)
     (prev_items \<lparr>prev_items = [init_item_rect zero_item 0 0 4 1 0xFF], screen_pixels = (\<lambda>i. 7)\<rparr>)
     [init_item_rect zero_item 0 0 4 1 0xFF] no_damage = Inr no_damage \<and>
   \<not> rect_valid no_damage \<and>
   (\<exists>st'. do_update example_env
       \<lparr>prev_items = [init_item_rect zero_item 0 0 4 1 0xFF], screen_pixels = (\<lambda>i. 7)\<rparr>
       [init_item_rect zero_item 0 0 4 1 0xFF] = Inr st' \<and>
     screen_pixels st' = (\<lambda>i. 7) \<and> prev_items st' = [init_item_rect zero_item 0 0 4 1 0xFF])"
proof -
  let ?st = "\<lparr>prev_items = [init_item_rect zero_item 0 0 4 1 0xFF], screen_pixels = (\<lambda>i. 7) :: framebuffer\<rparr>"
  have h1: "dumb_diff (strings example_env) (prev_items ?st)
     [init_item_rect zero_item 0 0 4 1 0xFF] no_damage = Inr no_damage"
    by (simp add: dumb_diff_def cmp_display_item_def init_item_rect_def)
  have h2: "\<not> rect_valid no_damage"
    by (simp add: no_damage_def)
  from do_update_no_damage_keeps_pixels [OF h1 h2] h1 h2 show ?thesis
    by simp
qed

section \<open>Properties of the renderers and of the compositor\<close>

declare repaint_row.simps [simp del] repaint_rows.simps [simp del]

lemma image_data_pix_store [simp]: "image_data_pix (store_image_data p d) = p"
  unfolding image_data_pix_def store_image_data_def
  by (rule bit_word_eqI) (auto simp: bit_word_cat_iff bit_ucast_iff bit_drop_bit_eq dest: bit_imp_le_length)

lemma image_loop_transparent:
  "\<not> opaque_pixel (pixels32 e dat p) \<Longrightarrow> \<not> visible_bg \<Longrightarrow>
   image_loop e dat visible_bg bgcolor base width j p drawn_pixels fb = (drawn_pixels, fb)"
  by (cases "j < width") (simp_all add: image_loop_unfold)

lemma draw_x_fall_through:
  assumes "0 \<le> xpos" "xpos < 4" "\<not> opaque_pixel (pixels32 e pix xpos)"
  shows "draw_x e xpos 0 [init_item_image item 0 0 None 4 1 pix, init_item_rect item' 0 0 4 1 color] fb
    = Inr (1, fb(xpos := uint32_color_to_surface e (push_bit 8 (word_of_int color) OR 0xFF)))"
  using assms
  apply (simp add: draw_x_def)
  apply (subst draw_x_loop.simps)
  apply (simp add: init_item_image_def bgcolor_of_def draw_item_def draw_image_x_def Let_def image_loop_transparent)
  apply (subst draw_x_loop.simps)
  apply (simp add: init_item_rect_def draw_item_def draw_rect_x_def Let_def rect_loop_step rect_loop_done)
  done

lemma repaint_row_done: "\<not> xpos < xend \<Longrightarrow> repaint_row e items ypos xend xpos fb = Inr fb"
  by (subst repaint_row.simps) simp

lemma repaint_row_step:
  "xpos < xend \<Longrightarrow> draw_x e xpos ypos items fb = Inr (n, fb') \<Longrightarrow>
   repaint_row e items ypos xend xpos fb = repaint_row e items ypos xend (xpos + n) fb'"
  by (subst repaint_row.simps) simp

text \<open>
  C1 (fall-through). The scene is an Image of 4 by 1 pixels at the origin with no
  background colour, whose four source pixels have alpha 0, over a Rect with the same
  bounds. Repainting the region (0, 0, 4, 1) ends with the mapped colour of the Rect in
  the four pixels of row 0 (frame buffer indices 0 to 3) and changes nothing else:
  at each column the Image returns 0 and the Rect below draws one pixel.
\<close>

theorem fall_through_image_over_rect:
  assumes "\<forall>i\<in>{0..<4}. \<not> opaque_pixel (pixels32 e pix i)"
  shows "repaint e
      [init_item_image item 0 0 None 4 1 pix, init_item_rect item' 0 0 4 1 color]
      \<lparr>rect_x = 0, rect_y = 0, rect_width = 4, rect_height = 1, rect_valid = True\<rparr> fb
    = Inr (fb(0 := uint32_color_to_surface e (brcolor (init_item_rect item' 0 0 4 1 color)),
              1 := uint32_color_to_surface e (brcolor (init_item_rect item' 0 0 4 1 color)),
              2 := uint32_color_to_surface e (brcolor (init_item_rect item' 0 0 4 1 color)),
              3 := uint32_color_to_surface e (brcolor (init_item_rect item' 0 0 4 1 color))))"
proof -
  let ?items = "[init_item_image item 0 0 None 4 1 pix, init_item_rect item' 0 0 4 1 color]"
  let ?c = "uint32_color_to_surface e (push_bit 8 (word_of_int color) OR 0xFF)"
  have c: "uint32_color_to_surface e (brcolor (init_item_rect item' 0 0 4 1 color)) = ?c"
    by (simp add: init_item_rect_def)
  from assms have t: "\<not> opaque_pixel (pixels32 e pix 0)" "\<not> opaque_pixel (pixels32 e pix 1)"
    "\<not> opaque_pixel (pixels32 e pix 2)" "\<not> opaque_pixel (pixels32 e pix 3)"
    by simp_all
  have d: "draw_x e 0 0 ?items f = Inr (1, f(0 := ?c))" "draw_x e 1 0 ?items f = Inr (1, f(1 := ?c))"
    "draw_x e 2 0 ?items f = Inr (1, f(2 := ?c))" "draw_x e 3 0 ?items f = Inr (1, f(3 := ?c))" for f
    using t by (simp_all add: draw_x_fall_through)
  have "repaint_row e ?items 0 4 0 fb = Inr (fb(0 := ?c, 1 := ?c, 2 := ?c, 3 := ?c))"
    by (simp add: repaint_row_step [OF _ d(1)] repaint_row_step [OF _ d(2)]
        repaint_row_step [OF _ d(3)] repaint_row_step [OF _ d(4)] repaint_row_done
        del: fun_upd_apply)
  then show ?thesis
    unfolding c repaint_def
    by (simp add: repaint_rows.simps [of _ _ _ 0] repaint_rows.simps [of _ _ _ 1] del: fun_upd_apply)
qed

theorem fall_through_image_over_rect_witness:
  "\<not> opaque_pixel (pixels32 example_env 0x1000 0) \<and>
   \<not> opaque_pixel (pixels32 example_env 0x1000 1) \<and>
   \<not> opaque_pixel (pixels32 example_env 0x1000 2) \<and>
   \<not> opaque_pixel (pixels32 example_env 0x1000 3) \<and>
   (\<exists>fb'. repaint example_env
      [init_item_image zero_item 0 0 None 4 1 0x1000, init_item_rect zero_item 0 0 4 1 0xFF]
      \<lparr>rect_x = 0, rect_y = 0, rect_width = 4, rect_height = 1, rect_valid = True\<rparr> (\<lambda>i. 0x80808080)
      = Inr fb' \<and> fb' 0 = 0xFF \<and> fb' 1 = 0xFF \<and> fb' 2 = 0xFF \<and> fb' 3 = 0xFF \<and> fb' 4 = 0x80808080)"
proof -
  have h: "\<forall>i\<in>{0..<4}. \<not> opaque_pixel (pixels32 example_env 0x1000 i)"
    by (simp add: example_env_def opaque_pixel_def)
  have c: "uint32_color_to_surface example_env (brcolor (init_item_rect zero_item 0 0 4 1 0xFF)) = 0xFF"
    by (simp add: uint32_color_to_surface_def example_env_def init_item_rect_def)
  from fall_through_image_over_rect [OF h, of zero_item zero_item "0xFF" "\<lambda>i. 0x80808080"] h
  show ?thesis
    unfolding c by simp
qed

text \<open>
  C5 (clipping of a scaled cropped image). The claim's example, with width 10, is clipped
  to 4 columns. With width 5 (source_x = 8, img_width = 10, x_scale = 2) the test
  \<open>source_x + width / x_scale > img_width\<close> is \<open>8 + 2 > 10\<close>: the integer division
  drops the half source pixel and nothing is clipped. A run that starts at the last column
  of the item, \<open>xpos - x = 4\<close>, reads the source column \<open>8 + 4 / 2 = 10\<close>, which is
  img_width.
\<close>

theorem draw_scaled_cropped_img_x_reads_column_img_width:
  "image_data_with_size_width
     (data (init_item_scaled_cropped_image item 0 0 5 1 bg 8 0 2 1 10 1 pix)) = 10 \<and>
   (\<exists>n fb'. draw_scaled_cropped_img_x e 4 0 1
     (init_item_scaled_cropped_image item 0 0 5 1 bg 8 0 2 1 10 1 pix) fb = Inr (n, fb', [10]))"
  by (simp add: draw_scaled_cropped_img_x_def init_item_scaled_cropped_image_def Let_def
      store_image_data_with_size_def image_data_with_size_width_def image_data_with_size_pix_def
      scaled_loop.simps [of _ _ _ _ _ _ _ _ _ 4] scaled_loop.simps [of _ _ _ _ _ _ _ _ _ 5]
      signed_divide_int_def)

lemma image_loop_spec:
  assumes "image_loop e dat visible_bg bgcolor base width j p d fb = (n, fb')"
  shows "d \<le> n \<and> n \<le> d + max 0 (width - j) \<and>
    (\<forall>i. fb' i =
       (if base + d \<le> i \<and> i < base + n then
          (if opaque_pixel (pixels32 e dat (p + (i - (base + d))))
           then uint32_color_to_surface e (read_32_unaligned e dat (p + (i - (base + d))))
           else bgcolor)
        else fb i)) \<and>
    (n < d + (width - j) \<longrightarrow> \<not> opaque_pixel (pixels32 e dat (p + (n - d))) \<and> \<not> visible_bg) \<and>
    (\<forall>k. 0 \<le> k \<and> k < n - d \<longrightarrow> opaque_pixel (pixels32 e dat (p + k)) \<or> visible_bg)"
  using assms
proof (induction e dat visible_bg bgcolor base width j p d fb rule: image_loop.induct)
  case (1 e dat visible_bg bgcolor base width j p d fb)
  let ?px = "pixels32 e dat p"
  consider (finished) "\<not> j < width" | (opaque) "j < width" "opaque_pixel ?px"
    | (bg) "j < width" "\<not> opaque_pixel ?px" "visible_bg"
    | (stop) "j < width" "\<not> opaque_pixel ?px" "\<not> visible_bg"
    by blast
  then show ?case
  proof cases
    case finished
    with "1.prems" show ?thesis by (auto simp add: image_loop_done)
  next
    case opaque
    have rec: "image_loop e dat visible_bg bgcolor base width (j + 1) (p + 1) (d + 1)
        (fb(base + d := uint32_color_to_surface e (read_32_unaligned e dat p))) = (n, fb')"
      using "1.prems" opaque by (simp add: image_loop_opaque del: fun_upd_apply)
    note ih = "1.IH"(1) [OF opaque(1) refl opaque(2) rec]
    have eq: "p + 1 + (i - (base + (d + 1))) = p + (i - (base + d))" for i
      by simp
    have eq2: "p + 1 + (n - (d + 1)) = p + (n - d)"
      by simp
    from ih have b: "d \<le> n" "n \<le> d + max 0 (width - j)"
      using opaque(1) by auto
    from ih have fr: "fb' i =
       (if base + d \<le> i \<and> i < base + n then
          (if opaque_pixel (pixels32 e dat (p + (i - (base + d))))
           then uint32_color_to_surface e (read_32_unaligned e dat (p + (i - (base + d))))
           else bgcolor)
        else fb i)" for i
      unfolding eq using opaque(2) by (cases "i = base + d") auto
    from ih have st: "n < d + (width - j) \<longrightarrow> \<not> opaque_pixel (pixels32 e dat (p + (n - d))) \<and> \<not> visible_bg"
      unfolding eq2 by auto
    have vis: "opaque_pixel (pixels32 e dat (p + k)) \<or> visible_bg" if "0 \<le> k" "k < n - d" for k
    proof (cases "k = 0")
      case True
      with opaque show ?thesis by simp
    next
      case False
      from ih have "0 \<le> m \<Longrightarrow> m < n - (d + 1) \<Longrightarrow>
          opaque_pixel (pixels32 e dat (p + 1 + m)) \<or> visible_bg" for m
        by blast
      from this [of "k - 1"] that False show ?thesis by simp
    qed
    from b fr st vis show ?thesis by blast
  next
    case bg
    have rec: "image_loop e dat visible_bg bgcolor base width (j + 1) (p + 1) (d + 1)
        (fb(base + d := bgcolor)) = (n, fb')"
      using "1.prems" bg by (simp add: image_loop_bg del: fun_upd_apply)
    note ih = "1.IH"(2) [OF bg(1) refl bg(2) bg(3) rec]
    have eq: "p + 1 + (i - (base + (d + 1))) = p + (i - (base + d))" for i
      by simp
    have eq2: "p + 1 + (n - (d + 1)) = p + (n - d)"
      by simp
    from ih have b: "d \<le> n" "n \<le> d + max 0 (width - j)"
      using bg(1) by auto
    from ih have fr: "fb' i =
       (if base + d \<le> i \<and> i < base + n then
          (if opaque_pixel (pixels32 e dat (p + (i - (base + d))))
           then uint32_color_to_surface e (read_32_unaligned e dat (p + (i - (base + d))))
           else bgcolor)
        else fb i)" for i
      unfolding eq using bg(2) by (cases "i = base + d") auto
    from ih have st: "n < d + (width - j) \<longrightarrow> \<not> opaque_pixel (pixels32 e dat (p + (n - d))) \<and> \<not> visible_bg"
      unfolding eq2 by auto
    have vis: "opaque_pixel (pixels32 e dat (p + k)) \<or> visible_bg" if "0 \<le> k" "k < n - d" for k
    proof (cases "k = 0")
      case True
      with bg show ?thesis by simp
    next
      case False
      from ih have "0 \<le> m \<Longrightarrow> m < n - (d + 1) \<Longrightarrow>
          opaque_pixel (pixels32 e dat (p + 1 + m)) \<or> visible_bg" for m
        by blast
      from this [of "k - 1"] that False show ?thesis by simp
    qed
    from b fr st vis show ?thesis by blast
  next
    case stop
    with "1.prems" show ?thesis by (auto simp add: image_loop_stop)
  qed
qed

text \<open>
  C8 (contract of draw_image_x). For a start \<open>(xpos, ypos)\<close> inside the bounding box
  of the item and \<open>max_line_len\<close> at least 1, draw_image_x returns a count \<open>n\<close> between
  0 and the columns left in the item and in the span, and has written exactly the \<open>n\<close>
  pixels from the start on: each with the mapped value of \<open>READ_32_UNALIGNED\<close> at its
  source pixel when the alpha of that pixel is not 0, and with the mapped background
  colour otherwise; every other pixel of the frame buffer is
  as before, so nothing at or beyond the column where it stopped is written. It returns 0
  if and only if the first source pixel has alpha 0 and the item has no background
  colour, and it stops before the end of the span only at such a pixel.
\<close>

theorem draw_image_x_contract:
  assumes "item_x item \<le> xpos" and "xpos < item_x item + item_width item"
    and "item_y item \<le> ypos" and "ypos < item_y item + item_height item"
    and "1 \<le> max_line_len"
  shows "\<exists>n fb'. draw_image_x e xpos ypos max_line_len item fb = (n, fb') \<and>
    0 \<le> n \<and> n \<le> min (item_x item + item_width item - xpos) max_line_len \<and>
    (n = 0 \<longleftrightarrow>
       \<not> opaque_pixel (pixels32 e (image_data_pix (data item))
           ((ypos - item_y item) * item_width item + (xpos - item_x item))) \<and>
       brcolor item = 0) \<and>
    (\<forall>i. fb' i =
       (if screen_w e * ypos + xpos \<le> i \<and> i < screen_w e * ypos + xpos + n then
          (if opaque_pixel (pixels32 e (image_data_pix (data item))
                ((ypos - item_y item) * item_width item + (xpos - item_x item)
                  + (i - (screen_w e * ypos + xpos))))
           then uint32_color_to_surface e (read_32_unaligned e (image_data_pix (data item))
                ((ypos - item_y item) * item_width item + (xpos - item_x item)
                  + (i - (screen_w e * ypos + xpos))))
           else uint32_color_to_surface e (brcolor item))
        else fb i)) \<and>
    (n < min (item_x item + item_width item - xpos) max_line_len \<longrightarrow>
       \<not> opaque_pixel (pixels32 e (image_data_pix (data item))
           ((ypos - item_y item) * item_width item + (xpos - item_x item) + n)) \<and>
       brcolor item = 0) \<and>
    (\<forall>k. 0 \<le> k \<and> k < n \<longrightarrow>
       opaque_pixel (pixels32 e (image_data_pix (data item))
           ((ypos - item_y item) * item_width item + (xpos - item_x item) + k)) \<or>
       brcolor item \<noteq> 0)"
proof -
  let ?w = "if item_width item > xpos - item_x item + max_line_len
            then xpos - item_x item + max_line_len else item_width item"
  let ?p = "(ypos - item_y item) * item_width item + (xpos - item_x item)"
  obtain n fb' where r: "draw_image_x e xpos ypos max_line_len item fb = (n, fb')"
    by (cases "draw_image_x e xpos ypos max_line_len item fb")
  then have loop: "image_loop e (image_data_pix (data item)) (brcolor item \<noteq> 0)
      (uint32_color_to_surface e (brcolor item)) (screen_w e * ypos + xpos) ?w
      (xpos - item_x item) ?p 0 fb = (n, fb')"
    by (simp add: draw_image_x_def Let_def)
  have w: "?w - (xpos - item_x item) = min (item_x item + item_width item - xpos) max_line_len"
    by auto
  have pos: "0 < min (item_x item + item_width item - xpos) max_line_len"
    using assms by auto
  note spec = image_loop_spec [OF loop]
  from spec have b: "0 \<le> n" "n \<le> min (item_x item + item_width item - xpos) max_line_len"
    using w pos by auto
  from spec have st: "n < min (item_x item + item_width item - xpos) max_line_len \<longrightarrow>
       \<not> opaque_pixel (pixels32 e (image_data_pix (data item)) (?p + n)) \<and> brcolor item = 0"
    using w by auto
  from spec have fr: "\<forall>i. fb' i =
       (if screen_w e * ypos + xpos \<le> i \<and> i < screen_w e * ypos + xpos + n then
          (if opaque_pixel (pixels32 e (image_data_pix (data item)) (?p + (i - (screen_w e * ypos + xpos))))
           then uint32_color_to_surface e (read_32_unaligned e (image_data_pix (data item))
                (?p + (i - (screen_w e * ypos + xpos))))
           else uint32_color_to_surface e (brcolor item))
        else fb i)"
    by simp
  have zero: "n = 0 \<longleftrightarrow>
       \<not> opaque_pixel (pixels32 e (image_data_pix (data item)) ?p) \<and> brcolor item = 0"
  proof
    assume "n = 0"
    with st pos show "\<not> opaque_pixel (pixels32 e (image_data_pix (data item)) ?p) \<and> brcolor item = 0"
      by simp
  next
    assume t: "\<not> opaque_pixel (pixels32 e (image_data_pix (data item)) ?p) \<and> brcolor item = 0"
    with loop show "n = 0"
      by (simp add: image_loop_transparent)
  qed
  from spec have vis: "\<forall>k. 0 \<le> k \<and> k < n \<longrightarrow>
       opaque_pixel (pixels32 e (image_data_pix (data item)) (?p + k)) \<or> brcolor item \<noteq> 0"
    by simp
  from r b zero fr st vis show ?thesis
    by blast
qed

theorem draw_image_x_contract_witness:
  "item_x (init_item_image zero_item 0 0 None 4 1 0x1000) \<le> 0 \<and>
   0 < item_x (init_item_image zero_item 0 0 None 4 1 0x1000)
       + item_width (init_item_image zero_item 0 0 None 4 1 0x1000) \<and>
   item_y (init_item_image zero_item 0 0 None 4 1 0x1000) \<le> 0 \<and>
   0 < item_y (init_item_image zero_item 0 0 None 4 1 0x1000)
       + item_height (init_item_image zero_item 0 0 None 4 1 0x1000) \<and>
   (1::int) \<le> 4 \<and>
   (\<exists>n fb'. draw_image_x (example_env\<lparr>pixels32 := \<lambda>p i. if i = 0 then 0xFF112233 else 0\<rparr>) 0 0 4
        (init_item_image zero_item 0 0 None 4 1 0x1000) (\<lambda>i. 0) = (n, fb') \<and>
      0 < n \<and> n \<le> 4 \<and> fb' 4 = 0)"
proof -
  let ?e = "example_env\<lparr>pixels32 := \<lambda>p i. if i = 0 then 0xFF112233 else 0\<rparr>"
  let ?item = "init_item_image zero_item 0 0 None 4 1 0x1000"
  have h: "item_x ?item \<le> 0" "0 < item_x ?item + item_width ?item"
    "item_y ?item \<le> 0" "0 < item_y ?item + item_height ?item" "(1::int) \<le> 4"
    by (simp_all add: init_item_image_def)
  have f: "item_x ?item = 0" "item_y ?item = 0" "item_width ?item = 4"
    "image_data_pix (data ?item) = 0x1000"
    by (simp_all add: init_item_image_def)
  have o: "opaque_pixel (0xFF112233 :: 32 word)"
    by (simp add: opaque_pixel_def)
  from draw_image_x_contract [OF h, of ?e "\<lambda>i. 0"]
  obtain n fb' where r: "draw_image_x ?e 0 0 4 ?item (\<lambda>i. 0) = (n, fb')"
    and n: "0 \<le> n" "n \<le> min (item_x ?item + item_width ?item - 0) 4"
    and z: "n = 0 \<longleftrightarrow>
       \<not> opaque_pixel (pixels32 ?e (image_data_pix (data ?item))
           ((0 - item_y ?item) * item_width ?item + (0 - item_x ?item))) \<and>
       brcolor ?item = 0"
    and fr: "fb' 4 = (if screen_w ?e * 0 + 0 \<le> 4 \<and> 4 < screen_w ?e * 0 + 0 + n then
          (if opaque_pixel (pixels32 ?e (image_data_pix (data ?item))
                ((0 - item_y ?item) * item_width ?item + (0 - item_x ?item)
                  + (4 - (screen_w ?e * 0 + 0))))
           then uint32_color_to_surface ?e (read_32_unaligned ?e (image_data_pix (data ?item))
                ((0 - item_y ?item) * item_width ?item + (0 - item_x ?item)
                  + (4 - (screen_w ?e * 0 + 0))))
           else uint32_color_to_surface ?e (brcolor ?item))
        else (\<lambda>i. 0) 4)"
    by blast
  from z have "n \<noteq> 0"
    unfolding f by (simp add: o)
  moreover from n have "n \<le> 4"
    unfolding f by simp
  moreover from fr \<open>n \<le> 4\<close> have "fb' 4 = 0"
    by simp
  ultimately show ?thesis
    using r n(1) h by simp
qed







lemma valid_item_init_item_text: "valid_item e (init_item_text (strings e) item x y fgcolor bgcolor t)"
  by (simp add: valid_item_def init_item_text_def store_text_data_def text_data_text_def)




end
